theory Spec2Isabelle
  imports Main "HOL-Library.AList"
begin

section \<open>NodeModal: a shallow embedding of src/features/modals/NodeModal/index.tsx\<close>

text \<open>
  The component reads and writes three external stores (the JSON document store, the
  file-contents store and the graph store), calls the external graph parser and the
  JavaScript built-ins \<^verbatim>\<open>JSON.parse\<close>, \<^verbatim>\<open>JSON.stringify\<close> and \<^verbatim>\<open>Number\<close>.
  The functions of the file are translated one by one; the built-ins that depend on
  floating-point numbers and the external parser are parameters, collected in a record.
\<close>

subsection \<open>JavaScript values\<close>

text \<open>
  Document values are what \<^verbatim>\<open>JSON.parse\<close> produces. The number type \<open>'n\<close> is left
  open (JavaScript numbers are IEEE doubles). An object is the list of its own
  properties in creation order, with distinct keys. \<^verbatim>\<open>undefined\<close> is not a document
  value: a value that may be \<^verbatim>\<open>undefined\<close> has type \<open>'n json option\<close>, \<open>None\<close> being
  \<^verbatim>\<open>undefined\<close>. Strings are lists of 8-bit characters.
\<close>

datatype 'n json =
    JNull
  | JBool bool
  | JNum 'n
  | JStr string
  | JArr "'n json list"
  | JObj "(string \<times> 'n json) list"

text \<open>
  A path segment: an object key or an array index (\<^verbatim>\<open>string | number\<close>). A number
  in a path is an array index, a natural number.
\<close>

datatype seg = Key string | Idx nat

text \<open>Exceptions the code can raise.\<close>

datatype exn = SyntaxError | TypeError | RangeError

subsection \<open>The types of types/graph (not among the sources)\<close>

text \<open>
  Modelled from the spec: a node carries "its flattened field rows and its path from
  the document root"; a row has a key (\<^verbatim>\<open>string | null\<close>), a value and a type name,
  as the component uses them (\<^verbatim>\<open>row.key\<close>, \<^verbatim>\<open>row.value\<close>, \<^verbatim>\<open>row.type\<close>). The path is
  optional (\<^verbatim>\<open>path?\<close>).
\<close>

record 'n NodeRow =
  row_key :: "string option"
  row_value :: "'n json option"
  row_type :: string

record 'n NodeData =
  node_id :: string
  node_text :: "'n NodeRow list"
  node_path :: "seg list option"

record 'n Graph =
  nodes :: "'n NodeData list"

subsection \<open>Built-ins and external collaborators\<close>

text \<open>
  \<open>Number\<close> is \<^verbatim>\<open>Number(value)\<close> on a string, \<open>isNaN\<close> is \<^verbatim>\<open>Number.isNaN\<close>,
  \<open>isFinite\<close> is \<^verbatim>\<open>Number.isFinite\<close>, \<open>numToString\<close> is the conversion of a number to
  a string, \<open>numOfNat\<close> is the number of a length, \<open>toLength\<close> is the array length
  a number denotes (\<open>None\<close> when it is not an integer in the range of array lengths),
  \<open>JSON_parse\<close> is \<^verbatim>\<open>JSON.parse\<close> (\<open>None\<close> when it throws a SyntaxError), and
  \<open>parser\<close> is the external graph parser (\<open>None\<close> when it throws).
\<close>

record 'n runtime =
  Number :: "string \<Rightarrow> 'n"
  isNaN :: "'n \<Rightarrow> bool"
  isFinite :: "'n \<Rightarrow> bool"
  numToString :: "'n \<Rightarrow> string"
  numOfNat :: "nat \<Rightarrow> 'n"
  toLength :: "'n \<Rightarrow> nat option"
  JSON_parse :: "string \<Rightarrow> 'n json option"
  parser :: "string \<Rightarrow> 'n Graph option"

subsection \<open>Characters and decimal numerals\<close>

definition dquote :: char where
  "dquote = CHR 0x22"

definition backslash :: char where
  "backslash = CHR 0x5C"

definition newline :: char where
  "newline = CHR 0x0A"

definition digit_char :: "nat \<Rightarrow> char" where
  "digit_char d = ''0123456789'' ! d"

text \<open>The decimal numeral of a natural number, as \<^verbatim>\<open>String(i)\<close> prints an index.\<close>

function nat_to_string :: "nat \<Rightarrow> string" where
  "nat_to_string n =
     (if n < 10 then [digit_char n]
      else nat_to_string (n div 10) @ [digit_char (n mod 10)])"
  by pat_completeness auto
termination
  by (relation "measure id") auto

declare nat_to_string.simps [simp del]

subsection \<open>jsonPathToString\<close>

text \<open>
  \<^verbatim>\<open>
  const jsonPathToString = (path?: NodeData["path"]) => {
    if (!path || path.length === 0) return "$";
    const segments = path.map(seg => (typeof seg === "number" ? seg : `"${seg}"`));
    return `$[${segments.join("][")}]`;
  };
  \<close>
\<close>

text \<open>\<^verbatim>\<open>Array.prototype.join\<close> on strings.\<close>

fun join :: "string \<Rightarrow> string list \<Rightarrow> string" where
  "join sep [] = []"
| "join sep [x] = x"
| "join sep (x # y # ys) = x @ sep @ join sep (y # ys)"

definition path_segment :: "seg \<Rightarrow> string" where
  "path_segment s = (case s of Idx i \<Rightarrow> nat_to_string i | Key k \<Rightarrow> [dquote] @ k @ [dquote])"

definition jsonPathToString :: "seg list option \<Rightarrow> string" where
  "jsonPathToString path =
     (case path of
        None \<Rightarrow> ''$''
      | Some segs \<Rightarrow>
          if length segs = 0 then ''$''
          else ''$['' @ join '']['' (map path_segment segs) @ '']'')"

subsection \<open>coerceValue\<close>

text \<open>
  \<^verbatim>\<open>
  const coerceValue = (value: string, type?: string) => {
    if (type === "number") {
      const n = Number(value);
      return Number.isNaN(n) ? value : n;
    }
    if (type === "boolean") {
      if (value === "true") return true;
      if (value === "false") return false;
    }
    if (value === "null") return null;
    return value;
  };
  \<close>
  The optional type is \<open>None\<close> when it is \<^verbatim>\<open>undefined\<close>. Each \<^verbatim>\<open>if\<close> block is a
  step that either returns or falls through to the next one.
\<close>

definition coerce_number :: "'n runtime \<Rightarrow> string \<Rightarrow> string option \<Rightarrow> 'n json option" where
  "coerce_number rt v ty =
     (if ty = Some ''number'' then
        (let n = Number rt v in Some (if isNaN rt n then JStr v else JNum n))
      else None)"

definition coerce_boolean :: "string \<Rightarrow> string option \<Rightarrow> 'n json option" where
  "coerce_boolean v ty =
     (if ty = Some ''boolean'' then
        (if v = ''true'' then Some (JBool True)
         else if v = ''false'' then Some (JBool False)
         else None)
      else None)"

definition coerceValue :: "'n runtime \<Rightarrow> string \<Rightarrow> string option \<Rightarrow> 'n json" where
  "coerceValue rt v ty =
     (case coerce_number rt v ty of
        Some r \<Rightarrow> r
      | None \<Rightarrow>
          (case coerce_boolean v ty of
             Some r \<Rightarrow> r
           | None \<Rightarrow> if v = ''null'' then JNull else JStr v))"

subsection \<open>Property keys and the order of own properties\<close>

definition is_digit :: "char \<Rightarrow> bool" where
  "is_digit c = (48 \<le> (of_char c :: nat) \<and> (of_char c :: nat) \<le> 57)"

definition string_to_nat :: "string \<Rightarrow> nat" where
  "string_to_nat s = foldl (\<lambda>acc c. 10 * acc + ((of_char c :: nat) - 48)) 0 s"

text \<open>
  A property key is an array index when it is the canonical decimal numeral of an
  integer below \<open>2^32 - 1\<close>.
\<close>

definition array_index :: "string \<Rightarrow> nat option" where
  "array_index k =
     (if k \<noteq> [] \<and> list_all is_digit k \<and> nat_to_string (string_to_nat k) = k
         \<and> string_to_nat k < 4294967295
      then Some (string_to_nat k) else None)"

text \<open>The property key of a path segment in \<^verbatim>\<open>cur[seg]\<close>.\<close>

definition seg_key :: "seg \<Rightarrow> string" where
  "seg_key s = (case s of Key k \<Rightarrow> k | Idx i \<Rightarrow> nat_to_string i)"

text \<open>
  The own properties of an ordinary object are enumerated with the array indices first,
  in ascending numeric order, and the other keys after them in creation order.
\<close>

definition own_property_order :: "(string \<times> 'v) list \<Rightarrow> (string \<times> 'v) list" where
  "own_property_order ps =
     sort_key (\<lambda>p. case array_index (fst p) of Some i \<Rightarrow> i | None \<Rightarrow> 0)
       (filter (\<lambda>p. array_index (fst p) \<noteq> None) ps)
     @ filter (\<lambda>p. array_index (fst p) = None) ps"

subsection \<open>JSON.stringify\<close>

definition hex_digit :: "nat \<Rightarrow> char" where
  "hex_digit d = ''0123456789abcdef'' ! d"

text \<open>
  The escape of one character in a JSON string literal: the characters with a short
  escape, the other control characters as \<^verbatim>\<open>\u00XX\<close>, and every other character as
  itself.
\<close>

definition short_escape :: "char \<Rightarrow> char option" where
  "short_escape c =
     (if c = CHR 0x08 then Some (CHR ''b'')
      else if c = CHR 0x09 then Some (CHR ''t'')
      else if c = CHR 0x0A then Some (CHR ''n'')
      else if c = CHR 0x0C then Some (CHR ''f'')
      else if c = CHR 0x0D then Some (CHR ''r'')
      else if c = dquote then Some dquote
      else if c = backslash then Some backslash
      else None)"

definition json_escape :: "char \<Rightarrow> string" where
  "json_escape c =
     (case short_escape c of
        Some e \<Rightarrow> [backslash, e]
      | None \<Rightarrow>
          if (of_char c :: nat) < 32 then
            [backslash, CHR ''u'', CHR ''0'', CHR ''0'',
             hex_digit ((of_char c :: nat) div 16), hex_digit ((of_char c :: nat) mod 16)]
          else [c])"

definition json_quote :: "string \<Rightarrow> string" where
  "json_quote s = [dquote] @ concat (map json_escape s) @ [dquote]"

text \<open>
  \<^verbatim>\<open>JSON.stringify(value, null, 2)\<close> on a document value. \<open>ind\<close> is the current
  indentation; the gap is two spaces. A number that is not finite prints as \<^verbatim>\<open>null\<close>.
  The entries of an object are printed in the order of its own properties.
\<close>

fun stringify :: "'n runtime \<Rightarrow> string \<Rightarrow> 'n json \<Rightarrow> string" where
  "stringify rt ind JNull = ''null''"
| "stringify rt ind (JBool b) = (if b then ''true'' else ''false'')"
| "stringify rt ind (JNum n) = (if isFinite rt n then numToString rt n else ''null'')"
| "stringify rt ind (JStr s) = json_quote s"
| "stringify rt ind (JArr xs) =
     (if xs = [] then ''[]''
      else ''['' @ [newline] @ (ind @ ''  '')
           @ join ('','' @ [newline] @ (ind @ ''  '')) (map (stringify rt (ind @ ''  '')) xs)
           @ [newline] @ ind @ '']'')"
| "stringify rt ind (JObj ps) =
     (if ps = [] then ''{}''
      else ''{'' @ [newline] @ (ind @ ''  '')
           @ join ('','' @ [newline] @ (ind @ ''  ''))
               (map snd (own_property_order
                  (map (\<lambda>(k, v). (k, json_quote k @ '': '' @ stringify rt (ind @ ''  '') v)) ps)))
           @ [newline] @ ind @ ''}'')"

definition JSON_stringify2 :: "'n runtime \<Rightarrow> 'n json \<Rightarrow> string" where
  "JSON_stringify2 rt v = stringify rt [] v"

text \<open>
  The same printer on a given list of entries, in the order of the list: the text of
  an object "whose entries are" that list.
\<close>

definition print_entries :: "'n runtime \<Rightarrow> (string \<times> 'n json) list \<Rightarrow> string" where
  "print_entries rt es =
     (if es = [] then ''{}''
      else ''{'' @ [newline] @ ''  ''
           @ join ('','' @ [newline] @ ''  '')
               (map (\<lambda>(k, v). json_quote k @ '': '' @ stringify rt ''  '' v) es)
           @ [newline] @ ''}'')"

text \<open>
  \<^verbatim>\<open>JSON.stringify(path)\<close> on an optional path, without indentation: \<^verbatim>\<open>undefined\<close>
  for a missing path.
\<close>

definition stringify_seg :: "seg \<Rightarrow> string" where
  "stringify_seg s = (case s of Idx i \<Rightarrow> nat_to_string i | Key k \<Rightarrow> json_quote k)"

definition JSON_stringify_path :: "seg list option \<Rightarrow> string option" where
  "JSON_stringify_path path =
     map_option (\<lambda>segs. ''['' @ join '','' (map stringify_seg segs) @ '']'') path"

subsection \<open>Template literals\<close>

text \<open>
  The string a template literal \<^verbatim>\<open>`${v}`\<close> gives: an array prints its elements
  separated by commas, \<^verbatim>\<open>null\<close> elements as the empty string.
\<close>

fun to_string :: "'n runtime \<Rightarrow> 'n json \<Rightarrow> string" where
  "to_string rt JNull = ''null''"
| "to_string rt (JBool b) = (if b then ''true'' else ''false'')"
| "to_string rt (JNum n) = numToString rt n"
| "to_string rt (JStr s) = s"
| "to_string rt (JArr xs) =
     join '','' (map (\<lambda>x. if x = JNull then [] else to_string rt x) xs)"
| "to_string rt (JObj ps) = ''[object Object]''"

definition template :: "'n runtime \<Rightarrow> 'n json option \<Rightarrow> string" where
  "template rt v = (case v of None \<Rightarrow> ''undefined'' | Some j \<Rightarrow> to_string rt j)"

subsection \<open>normalizeNodeData\<close>

text \<open>
  \<^verbatim>\<open>
  const normalizeNodeData = (nodeRows: NodeData["text"]) => {
    if (!nodeRows || nodeRows.length === 0) return "{}";
    if (nodeRows.length === 1 && !nodeRows[0].key) return `${nodeRows[0].value}`;

    const obj = {};
    nodeRows?.forEach(row => {
      if (row.type !== "array" && row.type !== "object") {
        if (row.key) obj[row.key] = row.value;
      }
    });
    return JSON.stringify(obj, null, 2);
  };
  \<close>
\<close>

text \<open>A key is truthy when it is a non-empty string.\<close>

definition truthy_key :: "string option \<Rightarrow> bool" where
  "truthy_key k = (case k of None \<Rightarrow> False | Some s \<Rightarrow> s \<noteq> [])"

text \<open>
  The object \<^verbatim>\<open>obj\<close>: its own properties in creation order, and whether its prototype
  has been set to \<^verbatim>\<open>null\<close>. The assignment \<^verbatim>\<open>obj[k] = v\<close> overwrites an own property
  in place and otherwise creates one at the end, except for the key \<^verbatim>\<open>__proto__\<close>,
  which the object inherits as an accessor as long as it has a prototype: the setter
  creates no own property, and on \<^verbatim>\<open>null\<close> it removes the prototype.
\<close>

record 'n display_obj =
  own :: "(string \<times> 'n json option) list"
  proto_null :: bool

definition obj_assign :: "'n display_obj \<Rightarrow> string \<Rightarrow> 'n json option \<Rightarrow> 'n display_obj" where
  "obj_assign obj k v =
     (if map_of (own obj) k = None \<and> k = ''__proto__'' \<and> \<not> proto_null obj then
        (if v = Some JNull then obj\<lparr>proto_null := True\<rparr> else obj)
      else obj\<lparr>own := AList.update k v (own obj)\<rparr>)"

text \<open>The body of the \<^verbatim>\<open>forEach\<close> callback.\<close>

definition normalize_row :: "'n display_obj \<Rightarrow> 'n NodeRow \<Rightarrow> 'n display_obj" where
  "normalize_row obj row =
     (if row_type row \<noteq> ''array'' \<and> row_type row \<noteq> ''object'' then
        (if truthy_key (row_key row) then obj_assign obj (the (row_key row)) (row_value row)
         else obj)
      else obj)"

text \<open>
  \<^verbatim>\<open>JSON.stringify\<close> leaves out the properties of an object whose value is
  \<^verbatim>\<open>undefined\<close>.
\<close>

definition defined_props :: "(string \<times> 'n json option) list \<Rightarrow> (string \<times> 'n json) list" where
  "defined_props ps = concat (map (\<lambda>(k, v). case v of None \<Rightarrow> [] | Some j \<Rightarrow> [(k, j)]) ps)"

definition normalizeNodeData :: "'n runtime \<Rightarrow> 'n NodeRow list option \<Rightarrow> string" where
  "normalizeNodeData rt nodeRows =
     (case nodeRows of
        None \<Rightarrow> ''{}''
      | Some rows \<Rightarrow>
          if length rows = 0 then ''{}''
          else if length rows = 1 \<and> \<not> truthy_key (row_key (rows ! 0))
            then template rt (row_value (rows ! 0))
          else
            JSON_stringify2 rt
              (JObj (defined_props
                 (own (foldl normalize_row \<lparr>own = [], proto_null = False\<rparr> rows)))))"

subsection \<open>setValueAtPath\<close>

text \<open>
  \<^verbatim>\<open>
  const setValueAtPath = (root: any, path: NodeData["path"] | undefined) => {
    if (!path || path.length === 0) return root;
    let cur: any = root;
    for (const seg of path) {
      if (cur == null) return undefined;
      cur = cur[seg as any];
    }
    return cur;
  };
  \<close>
  A property read \<^verbatim>\<open>cur[seg]\<close> throws a TypeError on \<^verbatim>\<open>null\<close> and \<^verbatim>\<open>undefined\<close>.
  On other values it gives the own property of that key, and \<^verbatim>\<open>undefined\<close> when there
  is none: an array and a string have their elements and their \<^verbatim>\<open>length\<close>. The members
  a value inherits from the built-in prototypes (\<^verbatim>\<open>constructor\<close>, \<^verbatim>\<open>toString\<close> and
  the like) are functions, outside the document values, and are not modelled.
\<close>

definition nullish :: "'n json option \<Rightarrow> bool" where
  "nullish v = (v = None \<or> v = Some JNull)"

definition own_property :: "'n runtime \<Rightarrow> 'n json \<Rightarrow> string \<Rightarrow> 'n json option" where
  "own_property rt v k =
     (case v of
        JObj ps \<Rightarrow> map_of ps k
      | JArr xs \<Rightarrow>
          (case array_index k of
             Some i \<Rightarrow> if i < length xs then Some (xs ! i) else None
           | None \<Rightarrow> if k = ''length'' then Some (JNum (numOfNat rt (length xs))) else None)
      | JStr s \<Rightarrow>
          (case array_index k of
             Some i \<Rightarrow> if i < length s then Some (JStr [s ! i]) else None
           | None \<Rightarrow> if k = ''length'' then Some (JNum (numOfNat rt (length s))) else None)
      | _ \<Rightarrow> None)"

definition read_property :: "'n runtime \<Rightarrow> 'n json option \<Rightarrow> seg \<Rightarrow> exn + 'n json option" where
  "read_property rt cur s =
     (case cur of
        None \<Rightarrow> Inl TypeError
      | Some JNull \<Rightarrow> Inl TypeError
      | Some v \<Rightarrow> Inr (own_property rt v (seg_key s)))"

text \<open>The \<^verbatim>\<open>for\<close> loop, with its early return.\<close>

fun walk :: "'n runtime \<Rightarrow> 'n json option \<Rightarrow> seg list \<Rightarrow> exn + 'n json option" where
  "walk rt cur [] = Inr cur"
| "walk rt cur (s # segs) =
     (if nullish cur then Inr None
      else (case read_property rt cur s of
              Inl e \<Rightarrow> Inl e
            | Inr v \<Rightarrow> walk rt v segs))"

definition setValueAtPath ::
  "'n runtime \<Rightarrow> 'n json option \<Rightarrow> seg list option \<Rightarrow> exn + 'n json option" where
  "setValueAtPath rt root path =
     (case path of
        None \<Rightarrow> Inr root
      | Some segs \<Rightarrow> if length segs = 0 then Inr root else walk rt root segs)"

subsection \<open>Property assignment on document values\<close>

text \<open>
  \<^verbatim>\<open>ToNumber\<close> of a value: an array or an object is converted through its string.
\<close>

definition to_number :: "'n runtime \<Rightarrow> 'n json \<Rightarrow> 'n" where
  "to_number rt v =
     (case v of
        JNull \<Rightarrow> numOfNat rt 0
      | JBool b \<Rightarrow> numOfNat rt (if b then 1 else 0)
      | JNum n \<Rightarrow> n
      | _ \<Rightarrow> Number rt (to_string rt v))"

text \<open>
  The assignment \<^verbatim>\<open>target[k] = v\<close> in strict code (the component is a module).
  \<^item> On an object: an own property is overwritten in place, a new one is created at
    the end; the key \<^verbatim>\<open>__proto__\<close>, when it is not an own property, goes to the
    inherited setter and creates no property.
  \<^item> On an array: an array index sets that element, the elements skipped are holes
    (they are not read again and print as \<^verbatim>\<open>null\<close>, so they are \<open>JNull\<close> here);
    \<^verbatim>\<open>length\<close> truncates or extends the array and throws a RangeError on a value
    that is no array length; any other key creates a property that \<^verbatim>\<open>JSON.stringify\<close>
    does not print, and the array is unchanged.
  \<^item> On \<^verbatim>\<open>null\<close> it throws a TypeError, and so it does on a string, a number or a
    boolean in strict code.
\<close>

definition set_property :: "'n runtime \<Rightarrow> 'n json \<Rightarrow> string \<Rightarrow> 'n json \<Rightarrow> exn + 'n json" where
  "set_property rt target k v =
     (case target of
        JObj ps \<Rightarrow>
          if map_of ps k = None \<and> k = ''__proto__'' then Inr (JObj ps)
          else Inr (JObj (AList.update k v ps))
      | JArr xs \<Rightarrow>
          (case array_index k of
             Some i \<Rightarrow>
               if i < length xs then Inr (JArr (xs[i := v]))
               else Inr (JArr (xs @ replicate (i - length xs) JNull @ [v]))
           | None \<Rightarrow>
               if k = ''length'' then
                 (case toLength rt (to_number rt v) of
                    None \<Rightarrow> Inl RangeError
                  | Some n \<Rightarrow> Inr (JArr (take n xs @ replicate (n - length xs) JNull)))
               else Inr (JArr xs))
      | _ \<Rightarrow> Inl TypeError)"

text \<open>
  A sequence of assignments on the same target, as the \<^verbatim>\<open>forEach\<close> of the save makes
  them: the first exception ends it.
\<close>

fun assign_all :: "'n runtime \<Rightarrow> (string \<times> 'n json) list \<Rightarrow> 'n json \<Rightarrow> exn + 'n json" where
  "assign_all rt [] target = Inr target"
| "assign_all rt ((k, v) # kvs) target =
     (case set_property rt target k v of
        Inl e \<Rightarrow> Inl e
      | Inr target' \<Rightarrow> assign_all rt kvs target')"

text \<open>
  The document is a tree: mutating the object that a path reaches is replacing the
  subtree at that path. \<open>update_at v segs f\<close> applies \<open>f\<close> to the value that the
  property reads along \<open>segs\<close> reach from \<open>v\<close>.
\<close>

fun update_at :: "'n json \<Rightarrow> seg list \<Rightarrow> ('n json \<Rightarrow> exn + 'n json) \<Rightarrow> exn + 'n json" where
  "update_at v [] f = f v"
| "update_at v (s # segs) f =
     (case v of
        JObj ps \<Rightarrow>
          (case map_of ps (seg_key s) of
             None \<Rightarrow> Inr v
           | Some c \<Rightarrow>
               (case update_at c segs f of
                  Inl e \<Rightarrow> Inl e
                | Inr c' \<Rightarrow> Inr (JObj (AList.update (seg_key s) c' ps))))
      | JArr xs \<Rightarrow>
          (case array_index (seg_key s) of
             None \<Rightarrow> Inr v
           | Some i \<Rightarrow>
               if i < length xs then
                 (case update_at (xs ! i) segs f of
                    Inl e \<Rightarrow> Inl e
                  | Inr c' \<Rightarrow> Inr (JArr (xs[i := c'])))
               else Inr v)
      | _ \<Rightarrow> Inr v)"

subsection \<open>The stores and the component state\<close>

text \<open>
  Modelled from the spec: "a document store holding the canonical JSON text", the
  file-contents store, and "a graph store holding the parsed node/edge model and the
  currently selected node". A store keeps what its setter is given. The calls on the
  stores and on the console are also recorded, in order, in \<open>trace\<close>.
\<close>

datatype 'n event =
    ConsoleWarn string
  | ConsoleError string exn
  | SetJson string
  | SetContents string bool bool
  | SetSelectedNode "'n NodeData"
  | SetEditMode bool

record 'n state =
  json :: string
  contents :: string
  hasChanges :: bool
  selectedNode :: "'n NodeData option"
  editMode :: bool
  formValues :: "(string \<times> string) list"
  trace :: "'n event list"

definition emit :: "'n event \<Rightarrow> 'n state \<Rightarrow> 'n state" where
  "emit e st = st\<lparr>trace := trace st @ [e]\<rparr>"

definition setJson :: "string \<Rightarrow> 'n state \<Rightarrow> 'n state" where
  "setJson s st = emit (SetJson s) (st\<lparr>json := s\<rparr>)"

text \<open>\<^verbatim>\<open>setContents({ contents, hasChanges, skipUpdate })\<close>\<close>

definition setContents :: "string \<Rightarrow> bool \<Rightarrow> bool \<Rightarrow> 'n state \<Rightarrow> 'n state" where
  "setContents c h skip st = emit (SetContents c h skip) (st\<lparr>contents := c, hasChanges := h\<rparr>)"

definition setSelectedNode :: "'n NodeData \<Rightarrow> 'n state \<Rightarrow> 'n state" where
  "setSelectedNode n st = emit (SetSelectedNode n) (st\<lparr>selectedNode := Some n\<rparr>)"

definition setEditMode :: "bool \<Rightarrow> 'n state \<Rightarrow> 'n state" where
  "setEditMode b st = emit (SetEditMode b) (st\<lparr>editMode := b\<rparr>)"

subsection \<open>handleSave\<close>

text \<open>\<^verbatim>\<open>nodeData?.path\<close>\<close>

definition nodeData_path :: "'n NodeData option \<Rightarrow> seg list option" where
  "nodeData_path nd = (case nd of None \<Rightarrow> None | Some n \<Rightarrow> node_path n)"

text \<open>\<^verbatim>\<open>nodeData?.text.find(r => r.key === key)\<close>, and \<^verbatim>\<open>row?.type\<close>\<close>

definition find_row :: "'n NodeData option \<Rightarrow> string \<Rightarrow> 'n NodeRow option" where
  "find_row nd k =
     (case nd of None \<Rightarrow> None | Some n \<Rightarrow> find (\<lambda>r. row_key r = Some k) (node_text n))"

definition row_type_of :: "'n NodeRow option \<Rightarrow> string option" where
  "row_type_of row = map_option row_type row"

text \<open>\<^verbatim>\<open>Object.keys(formValues)\<close>\<close>

definition Object_keys :: "(string \<times> 'v) list \<Rightarrow> string list" where
  "Object_keys ps = map fst (own_property_order ps)"

text \<open>
  The keys of the form with their new values, in the order of the \<^verbatim>\<open>forEach\<close>:
  \<^verbatim>\<open>coerceValue(formValues[key], row?.type)\<close>.
\<close>

definition new_values :: "'n runtime \<Rightarrow> 'n NodeData option \<Rightarrow> (string \<times> string) list \<Rightarrow> (string \<times> 'n json) list" where
  "new_values rt nd fv =
     map (\<lambda>k. (k, coerceValue rt (the (map_of fv k)) (row_type_of (find_row nd k))))
       (Object_keys fv)"

text \<open>
  \<^verbatim>\<open>parent && typeof parent === "object"\<close>: the value is an object or an array.
  The warning is logged on the complement, \<^verbatim>\<open>parent == null || typeof parent !== "object"\<close>.
\<close>

definition is_object :: "'n json option \<Rightarrow> bool" where
  "is_object v = (case v of Some (JObj ps) \<Rightarrow> True | Some (JArr xs) \<Rightarrow> True | _ \<Rightarrow> False)"

definition js_typeof :: "'n json option \<Rightarrow> string" where
  "js_typeof v =
     (case v of
        None \<Rightarrow> ''undefined''
      | Some JNull \<Rightarrow> ''object''
      | Some (JBool b) \<Rightarrow> ''boolean''
      | Some (JNum n) \<Rightarrow> ''number''
      | Some (JStr s) \<Rightarrow> ''string''
      | Some (JArr xs) \<Rightarrow> ''object''
      | Some (JObj ps) \<Rightarrow> ''object'')"

text \<open>\<^verbatim>\<open>raw ? JSON.parse(raw) : {}\<close>\<close>

definition parse_document :: "'n runtime \<Rightarrow> string \<Rightarrow> 'n json option" where
  "parse_document rt raw = (if raw \<noteq> [] then JSON_parse rt raw else Some (JObj []))"

text \<open>
  The \<^verbatim>\<open>forEach\<close> over the keys of the form: every key is assigned on \<^verbatim>\<open>parent\<close>,
  the object inside \<^verbatim>\<open>parsed\<close> at the node's path, when that is an object, and on
  \<^verbatim>\<open>parsed\<close> itself otherwise.
\<close>

definition apply_edits ::
  "'n runtime \<Rightarrow> 'n json \<Rightarrow> seg list option \<Rightarrow> 'n json option \<Rightarrow> (string \<times> 'n json) list \<Rightarrow> exn + 'n json" where
  "apply_edits rt parsed path parent kvs =
     (if is_object parent then
        update_at parsed (case path of None \<Rightarrow> [] | Some segs \<Rightarrow> segs) (assign_all rt kvs)
      else assign_all rt kvs parsed)"

text \<open>The inner \<^verbatim>\<open>try\<close>: the graph is parsed again and the node of the same path selected.\<close>

definition reselect :: "'n runtime \<Rightarrow> seg list option \<Rightarrow> string \<Rightarrow> 'n state \<Rightarrow> 'n state" where
  "reselect rt path jsonStr st =
     (case parser rt jsonStr of
        None \<Rightarrow> st
      | Some graph \<Rightarrow>
          (case find (\<lambda>n. JSON_stringify_path (node_path n) = JSON_stringify_path path)
                  (nodes graph) of
             None \<Rightarrow> st
           | Some matched \<Rightarrow> setSelectedNode matched st))"

text \<open>The outer \<^verbatim>\<open>catch\<close>.\<close>

definition save_failed :: "exn \<Rightarrow> 'n state \<Rightarrow> 'n state" where
  "save_failed e st = emit (ConsoleError ''Failed to save node edits'' e) st"

text \<open>
  \<^verbatim>\<open>
  const handleSave = () => {
    try {
      const raw = useJson.getState().json;
      const parsed = raw ? JSON.parse(raw) : {};
      const parent = setValueAtPath(parsed, nodeData?.path);
      if (parent == null || typeof parent !== "object") {
        console.warn("Could not find parent for path, applying to root");
      }
      Object.keys(formValues).forEach(key => {
        const row = nodeData?.text.find(r => r.key === key);
        const newVal = coerceValue(formValues[key], row?.type as any);
        if (parent && typeof parent === "object") parent[key] = newVal;
        else parsed[key] = newVal;
      });
      const jsonStr = JSON.stringify(parsed, null, 2);
      useJson.getState().setJson(jsonStr);
      useFile.getState().setContents({ contents: jsonStr, hasChanges: false, skipUpdate: true });
      try {
        const graph = parser(jsonStr);
        const matched = graph.nodes.find(n => JSON.stringify(n.path) === JSON.stringify(nodeData?.path));
        if (matched) {
          useGraph.getState().setSelectedNode(matched);
        }
      } catch (e) {
      }
      setEditMode(false);
    } catch (err) {
      console.error("Failed to save node edits", err);
    }
  };
  \<close>
\<close>

definition handleSave :: "'n runtime \<Rightarrow> 'n state \<Rightarrow> 'n state" where
  "handleSave rt st =
     (let nodeData = selectedNode st in
      case parse_document rt (json st) of
        None \<Rightarrow> save_failed SyntaxError st
      | Some parsed \<Rightarrow>
          (case setValueAtPath rt (Some parsed) (nodeData_path nodeData) of
             Inl e \<Rightarrow> save_failed e st
           | Inr parent \<Rightarrow>
               (let st1 = (if nullish parent \<or> js_typeof parent \<noteq> ''object''
                           then emit (ConsoleWarn ''Could not find parent for path, applying to root'') st
                           else st)
                in case apply_edits rt parsed (nodeData_path nodeData) parent
                          (new_values rt nodeData (formValues st)) of
                     Inl e \<Rightarrow> save_failed e st1
                   | Inr parsed' \<Rightarrow>
                       (let jsonStr = JSON_stringify2 rt parsed';
                            st2 = setJson jsonStr st1;
                            st3 = setContents jsonStr False True st2;
                            st4 = reselect rt (nodeData_path nodeData) jsonStr st3
                        in setEditMode False st4))))"

subsection \<open>Reference definitions for the properties\<close>

text \<open>
  The value located at a path: the root indexed by each segment in order, where
  indexing \<^verbatim>\<open>null\<close> or \<^verbatim>\<open>undefined\<close> gives \<^verbatim>\<open>undefined\<close>.
\<close>

definition index_value :: "'n runtime \<Rightarrow> 'n json option \<Rightarrow> seg \<Rightarrow> 'n json option" where
  "index_value rt cur s =
     (case cur of
        None \<Rightarrow> None
      | Some JNull \<Rightarrow> None
      | Some v \<Rightarrow> own_property rt v (seg_key s))"

definition value_at :: "'n runtime \<Rightarrow> 'n json option \<Rightarrow> seg list \<Rightarrow> 'n json option" where
  "value_at rt root segs = foldl (index_value rt) root segs"

definition path_segments :: "seg list option \<Rightarrow> seg list" where
  "path_segments path = (case path of None \<Rightarrow> [] | Some segs \<Rightarrow> segs)"

text \<open>
  The scalar fields of a row list: the rows with a truthy key whose type is neither
  \<^verbatim>\<open>array\<close> nor \<^verbatim>\<open>object\<close>, as key and value, in row order.
\<close>

definition scalar_row :: "'n NodeRow \<Rightarrow> bool" where
  "scalar_row r = (truthy_key (row_key r) \<and> row_type r \<noteq> ''array'' \<and> row_type r \<noteq> ''object'')"

definition scalar_fields :: "'n NodeRow list \<Rightarrow> (string \<times> 'n json option) list" where
  "scalar_fields rows = map (\<lambda>r. (the (row_key r), row_value r)) (filter scalar_row rows)"

text \<open>
  The own properties of an object that starts empty after the assignments
  \<^verbatim>\<open>obj[k] = v\<close> of a list of fields, in order: a key that comes again keeps its place
  and takes the new value.
\<close>

definition assign_fields :: "(string \<times> 'v) list \<Rightarrow> (string \<times> 'v) list" where
  "assign_fields kvs = foldl (\<lambda>ps kv. AList.update (fst kv) (snd kv) ps) [] kvs"

text \<open>
  One assignment of the save on the own properties of an object, as \<open>set_property\<close>
  makes it.
\<close>

definition assign_entry :: "(string \<times> 'n json) list \<Rightarrow> string \<times> 'n json \<Rightarrow> (string \<times> 'n json) list" where
  "assign_entry ps kv =
     (if map_of ps (fst kv) = None \<and> fst kv = ''__proto__'' then ps
      else AList.update (fst kv) (snd kv) ps)"

text \<open>The events that a save adds to the trace.\<close>

definition new_events :: "'n state \<Rightarrow> 'n state \<Rightarrow> 'n event list" where
  "new_events st st' = drop (length (trace st)) (trace st')"

text \<open>A text that is empty or starts with the separator of a printed path.\<close>

definition sep_led :: "string \<Rightarrow> bool" where
  "sep_led r = (r = [] \<or> hd r = CHR '','')"

subsection \<open>A small runtime for the examples\<close>

text \<open>
  Numbers are the integers and \<open>None\<close> is \<^verbatim>\<open>NaN\<close>. \<open>Number\<close> reads the non-empty
  numerals made of decimal digits, as the real one does, and gives \<^verbatim>\<open>NaN\<close> on every
  other string. \<^verbatim>\<open>JSON.parse\<close> is given on three texts, where it returns what the real
  one returns, and throws on every other text, as the real one does on the empty text
  and on \<^verbatim>\<open>{oops\<close>. The graph parser is a stand-in: it knows two texts and throws on
  every other.
\<close>

definition demo_Number :: "string \<Rightarrow> int option" where
  "demo_Number s =
     (if s \<noteq> [] \<and> list_all is_digit s then Some (int (string_to_nat s)) else None)"

definition demo_numToString :: "int option \<Rightarrow> string" where
  "demo_numToString n =
     (case n of
        None \<Rightarrow> ''NaN''
      | Some i \<Rightarrow> if i < 0 then ''-'' @ nat_to_string (nat (- i)) else nat_to_string (nat i))"

definition demo_toLength :: "int option \<Rightarrow> nat option" where
  "demo_toLength n =
     (case n of
        None \<Rightarrow> None
      | Some i \<Rightarrow> if 0 \<le> i \<and> i < 4294967296 then Some (nat i) else None)"

definition demo_JSON_parse :: "string \<Rightarrow> int option json option" where
  \<open>demo_JSON_parse s =
     (if s = ''null'' then Some JNull
      else if s = ''{"a":1}'' then Some (JObj [(''a'', JNum (Some 1))])
      else if s = ''{"x":{"a":1},"y":true}''
        then Some (JObj [(''x'', JObj [(''a'', JNum (Some 1))]), (''y'', JBool True)])
      else None)\<close>

definition demo_node :: "seg list \<Rightarrow> int \<Rightarrow> int option NodeData" where
  "demo_node p i =
     \<lparr>node_id = ''1'',
      node_text = [\<lparr>row_key = Some ''a'', row_value = Some (JNum (Some i)), row_type = ''number''\<rparr>],
      node_path = Some p\<rparr>"

definition demo_parser :: "string \<Rightarrow> int option Graph option" where
  \<open>demo_parser s =
     (if s = ''{'' @ [newline] @ ''  "a": 2'' @ [newline] @ ''}''
        then Some \<lparr>nodes = [demo_node [] 2]\<rparr>
      else if s = ''{'' @ [newline] @ ''  "x": {'' @ [newline] @ ''    "a": 2'' @ [newline]
                @ ''  },'' @ [newline] @ ''  "y": true'' @ [newline] @ ''}''
        then Some \<lparr>nodes = [\<lparr>node_id = ''0'', node_text = [], node_path = Some []\<rparr>,
                           demo_node [Key ''x''] 2]\<rparr>
      else None)\<close>

definition demo_rows :: "int option NodeRow list" where
  "demo_rows =
     [\<lparr>row_key = Some ''name'', row_value = Some (JStr ''Ann''), row_type = ''string''\<rparr>,
      \<lparr>row_key = Some ''tags'', row_value = Some (JStr ''[2 items]''), row_type = ''array''\<rparr>,
      \<lparr>row_key = Some ''age'', row_value = Some (JNum (Some 7)), row_type = ''number''\<rparr>]"

definition demo_rows_indexed :: "int option NodeRow list" where
  "demo_rows_indexed =
     [\<lparr>row_key = Some ''b'', row_value = Some (JStr ''x''), row_type = ''string''\<rparr>,
      \<lparr>row_key = Some ''1'', row_value = Some (JStr ''y''), row_type = ''string''\<rparr>]"

definition demo_rt :: "int option runtime" where
  "demo_rt =
     \<lparr>Number = demo_Number,
      isNaN = (\<lambda>n. n = None),
      isFinite = (\<lambda>n. n \<noteq> None),
      numToString = demo_numToString,
      numOfNat = (\<lambda>n. Some (int n)),
      toLength = demo_toLength,
      JSON_parse = demo_JSON_parse,
      parser = demo_parser\<rparr>"

definition demo_state :: "string \<Rightarrow> seg list \<Rightarrow> int option state" where
  "demo_state doc p =
     \<lparr>json = doc, contents = doc, hasChanges = True,
      selectedNode = Some (demo_node p 1), editMode = True,
      formValues = [(''a'', ''2'')], trace = []\<rparr>"

section \<open>Properties\<close>

subsection \<open>Decimal numerals\<close>

lemma digit_char_is_digit: "m < 10 \<Longrightarrow> is_digit (digit_char m)"
proof -
  assume "m < 10"
  then have "m \<in> {0,1,2,3,4,5,6,7,8,9}" by auto
  then show ?thesis by (auto simp: digit_char_def is_digit_def)
qed

lemma digit_char_value: "m < 10 \<Longrightarrow> (of_char (digit_char m) :: nat) = 48 + m"
proof -
  assume "m < 10"
  then have "m \<in> {0,1,2,3,4,5,6,7,8,9}" by auto
  then show ?thesis by (auto simp: digit_char_def)
qed

lemma nat_to_string_digits: "list_all is_digit (nat_to_string n)"
proof (induction n rule: nat_to_string.induct)
  case (1 n)
  show ?case
  proof (cases "n < 10")
    case True
    then show ?thesis by (simp add: nat_to_string.simps [of n] digit_char_is_digit)
  next
    case False
    with 1 show ?thesis by (simp add: nat_to_string.simps [of n] digit_char_is_digit)
  qed
qed

lemma string_to_nat_snoc:
  "string_to_nat (s @ [c]) = 10 * string_to_nat s + ((of_char c :: nat) - 48)"
  by (simp add: string_to_nat_def)

text \<open>The numeral reads back as the number: it is the decimal numeral.\<close>

lemma string_to_nat_nat_to_string: "string_to_nat (nat_to_string n) = n"
proof (induction n rule: nat_to_string.induct)
  case (1 n)
  show ?case
  proof (cases "n < 10")
    case True
    then show ?thesis
      by (simp add: nat_to_string.simps [of n] string_to_nat_def digit_char_value)
  next
    case False
    with 1 show ?thesis
      by (simp add: nat_to_string.simps [of n] string_to_nat_snoc digit_char_value)
  qed
qed

lemma nat_to_string_inj: "nat_to_string m = nat_to_string n \<Longrightarrow> m = n"
  by (metis string_to_nat_nat_to_string)

lemma nat_to_string_nonempty: "nat_to_string n \<noteq> []"
  by (simp add: nat_to_string.simps [of n])

subsection \<open>The JSON text of a path determines the path\<close>

lemma hex_digit_inj: "a < 16 \<Longrightarrow> b < 16 \<Longrightarrow> hex_digit a = hex_digit b \<Longrightarrow> a = b"
proof -
  assume "a < 16" "b < 16" and h: "hex_digit a = hex_digit b"
  then have "a \<in> {0,1,2,3,4,5,6,7,8,9,10,11,12,13,14,15}" "b \<in> {0,1,2,3,4,5,6,7,8,9,10,11,12,13,14,15}"
    by (simp_all; arith)+
  with h show ?thesis by (auto simp: hex_digit_def)
qed

lemma low_char_eq:
  fixes c d :: char
  assumes "(of_char c :: nat) < 32" "(of_char d :: nat) < 32"
    and "hex_digit ((of_char c :: nat) div 16) = hex_digit ((of_char d :: nat) div 16)"
    and "hex_digit ((of_char c :: nat) mod 16) = hex_digit ((of_char d :: nat) mod 16)"
  shows "c = d"
proof -
  have "(of_char c :: nat) div 16 = (of_char d :: nat) div 16"
    using assms by (intro hex_digit_inj) auto
  moreover have "(of_char c :: nat) mod 16 = (of_char d :: nat) mod 16"
    using assms by (intro hex_digit_inj) auto
  ultimately have "(of_char c :: nat) = of_char d"
    by (metis div_mult_mod_eq)
  then show ?thesis by simp
qed

lemma short_escape_inj: "short_escape c = Some e \<Longrightarrow> short_escape d = Some e \<Longrightarrow> c = d"
  by (auto simp: short_escape_def dquote_def backslash_def split: if_splits)

lemma short_escape_not_u: "short_escape c = Some e \<Longrightarrow> e \<noteq> CHR ''u''"
  by (auto simp: short_escape_def dquote_def backslash_def split: if_splits)

lemma short_escape_None: "short_escape c = None \<Longrightarrow> c \<noteq> backslash \<and> c \<noteq> dquote"
  by (auto simp: short_escape_def split: if_splits)

lemma json_escape_hd: "\<exists>t. json_escape c = backslash # t \<or> (json_escape c = [c] \<and> c \<noteq> dquote)"
  by (auto simp: json_escape_def dest: short_escape_None split: option.splits)

lemma json_escape_prefix_free:
  assumes eq: "json_escape c @ x = json_escape d @ y"
  shows "c = d \<and> x = y"
proof (cases "short_escape c")
  case cN: None
  show ?thesis
  proof (cases "short_escape d")
    case dN: None
    show ?thesis
      using eq cN dN short_escape_None [OF cN] short_escape_None [OF dN] low_char_eq [of c d]
      by (auto simp: json_escape_def split: if_splits)
  next
    case dS: (Some e)
    show ?thesis
      using eq cN dS short_escape_None [OF cN] short_escape_not_u [OF dS]
      by (auto simp: json_escape_def split: if_splits)
  qed
next
  case cS: (Some e)
  show ?thesis
  proof (cases "short_escape d")
    case dN: None
    show ?thesis
      using eq cS dN short_escape_None [OF dN] short_escape_not_u [OF cS]
      by (auto simp: json_escape_def split: if_splits)
  next
    case dS: (Some e')
    show ?thesis
      using eq cS dS short_escape_inj [of c e d]
      by (auto simp: json_escape_def)
  qed
qed

lemma escaped_body_inj:
  "concat (map json_escape k1) @ dquote # r1 = concat (map json_escape k2) @ dquote # r2
   \<Longrightarrow> k1 = k2 \<and> r1 = r2"
proof (induction k1 arbitrary: k2)
  case Nil
  show ?case
  proof (cases k2)
    case Nil
    with Nil.prems show ?thesis by simp
  next
    case (Cons d k2')
    with Nil.prems json_escape_hd [of d] show ?thesis
      by (auto simp: backslash_def dquote_def)
  qed
next
  case (Cons c k1)
  show ?case
  proof (cases k2)
    case Nil
    with Cons.prems json_escape_hd [of c] show ?thesis
      by (auto simp: backslash_def dquote_def)
  next
    case k2: (Cons d k2')
    with Cons.prems have
      "json_escape c @ (concat (map json_escape k1) @ dquote # r1)
       = json_escape d @ (concat (map json_escape k2') @ dquote # r2)"
      by simp
    then have "c = d" and
      "concat (map json_escape k1) @ dquote # r1 = concat (map json_escape k2') @ dquote # r2"
      using json_escape_prefix_free by blast+
    with Cons.IH [of k2'] k2 show ?thesis by simp
  qed
qed

lemma json_quote_inj: "json_quote k1 @ r1 = json_quote k2 @ r2 \<Longrightarrow> k1 = k2 \<and> r1 = r2"
  using escaped_body_inj [of k1 r1 k2 r2] by (simp add: json_quote_def)


lemma digits_prefix:
  "list_all is_digit a \<Longrightarrow> list_all is_digit b \<Longrightarrow>
   r1 = [] \<or> \<not> is_digit (hd r1) \<Longrightarrow> r2 = [] \<or> \<not> is_digit (hd r2) \<Longrightarrow>
   a @ r1 = b @ r2 \<Longrightarrow> a = b \<and> r1 = r2"
proof (induction a arbitrary: b)
  case Nil
  then show ?case by (cases b) auto
next
  case (Cons x a)
  show ?case
  proof (cases b)
    case Nil
    with Cons.prems show ?thesis by auto
  next
    case (Cons y b')
    with Cons.prems Cons.IH [of b'] show ?thesis by auto
  qed
qed

lemma sep_led_not_digit: "sep_led r \<Longrightarrow> r = [] \<or> \<not> is_digit (hd r)"
  by (auto simp: sep_led_def is_digit_def)

lemma quote_not_numeral: "json_quote a @ r1 \<noteq> nat_to_string j @ r2"
proof
  assume eq: "json_quote a @ r1 = nat_to_string j @ r2"
  have "is_digit (hd (nat_to_string j))"
    using nat_to_string_digits [of j] nat_to_string_nonempty [of j]
    by (cases "nat_to_string j") auto
  moreover have "hd (nat_to_string j @ r2) = hd (nat_to_string j)"
    using nat_to_string_nonempty [of j] by simp
  moreover have "hd (json_quote a @ r1) = dquote"
    by (simp add: json_quote_def)
  ultimately have "is_digit dquote" using eq by simp
  then show False by (simp add: is_digit_def dquote_def)
qed

lemma stringify_seg_inj:
  assumes "stringify_seg s1 @ r1 = stringify_seg s2 @ r2" "sep_led r1" "sep_led r2"
  shows "s1 = s2 \<and> r1 = r2"
proof (cases s1)
  case k1: (Key a)
  show ?thesis
  proof (cases s2)
    case (Key b)
    with k1 assms json_quote_inj [of a r1 b r2] show ?thesis
      by (simp add: stringify_seg_def)
  next
    case (Idx j)
    with k1 assms(1) quote_not_numeral [of a r1 j r2] show ?thesis
      by (simp add: stringify_seg_def)
  qed
next
  case i1: (Idx i)
  show ?thesis
  proof (cases s2)
    case (Key b)
    with i1 assms(1) quote_not_numeral [of b r2 i r1] show ?thesis
      by (simp add: stringify_seg_def)
  next
    case (Idx j)
    with i1 assms have "nat_to_string i @ r1 = nat_to_string j @ r2"
      by (simp add: stringify_seg_def)
    then have "nat_to_string i = nat_to_string j \<and> r1 = r2"
      using digits_prefix [OF nat_to_string_digits nat_to_string_digits
          sep_led_not_digit [OF assms(2)] sep_led_not_digit [OF assms(3)]]
      by blast
    with i1 Idx show ?thesis by (auto dest: nat_to_string_inj)
  qed
qed

lemma stringify_seg_nonempty: "stringify_seg s \<noteq> []"
  by (cases s) (simp_all add: stringify_seg_def json_quote_def nat_to_string_nonempty)

lemma join_Cons: "join sep (x # xs) = x @ (if xs = [] then [] else sep @ join sep xs)"
  by (cases xs) simp_all

lemma join_segs_inj:
  "join '','' (map stringify_seg xs) = join '','' (map stringify_seg ys) \<Longrightarrow> xs = ys"
proof (induction xs arbitrary: ys)
  case Nil
  then show ?case
    by (cases ys) (auto simp: join_Cons stringify_seg_nonempty)
next
  case (Cons x xs)
  show ?case
  proof (cases ys)
    case Nil
    with Cons.prems show ?thesis by (auto simp: join_Cons stringify_seg_nonempty)
  next
    case ys: (Cons y ys')
    let ?r1 = "if xs = [] then [] else '','' @ join '','' (map stringify_seg xs)"
    let ?r2 = "if ys' = [] then [] else '','' @ join '','' (map stringify_seg ys')"
    from Cons.prems ys have "stringify_seg x @ ?r1 = stringify_seg y @ ?r2"
      by (simp add: join_Cons)
    moreover have "sep_led ?r1" "sep_led ?r2" by (simp_all add: sep_led_def)
    ultimately have xy: "x = y" and r: "?r1 = ?r2"
      using stringify_seg_inj by blast+
    from r have "xs = [] \<longleftrightarrow> ys' = []" by (auto split: if_splits)
    moreover from r have "join '','' (map stringify_seg xs) = join '','' (map stringify_seg ys')"
      if "xs \<noteq> []" "ys' \<noteq> []" using that by simp
    ultimately have "xs = ys'" using Cons.IH [of ys'] by (cases "xs = []") auto
    with xy ys show ?thesis by simp
  qed
qed

lemma JSON_stringify_path_inj:
  "JSON_stringify_path p = JSON_stringify_path q \<longleftrightarrow> p = q"
  by (cases p; cases q) (auto simp: JSON_stringify_path_def dest: join_segs_inj)

subsection \<open>coerceValue\<close>

text \<open>
  C3. For every string \<open>v\<close>: when the row type is \<^verbatim>\<open>"number"\<close> the result is
  \<^verbatim>\<open>Number(v)\<close> if that is not \<^verbatim>\<open>NaN\<close> and the string \<open>v\<close> otherwise; when the row
  type is \<^verbatim>\<open>"boolean"\<close> and \<open>v\<close> is \<^verbatim>\<open>"true"\<close> or \<^verbatim>\<open>"false"\<close> it is that boolean;
  otherwise \<^verbatim>\<open>null\<close> when \<open>v\<close> is \<^verbatim>\<open>"null"\<close>; and \<open>v\<close> unchanged in all other cases.
\<close>

theorem coerceValue_cases:
  "coerceValue rt v ty =
     (if ty = Some ''number'' then
        (if isNaN rt (Number rt v) then JStr v else JNum (Number rt v))
      else if ty = Some ''boolean'' \<and> v = ''true'' then JBool True
      else if ty = Some ''boolean'' \<and> v = ''false'' then JBool False
      else if v = ''null'' then JNull
      else JStr v)"
  by (simp add: coerceValue_def coerce_number_def coerce_boolean_def Let_def)

theorem coerceValue_cases_witness:
  "coerceValue demo_rt ''42'' (Some ''number'') = JNum (Some 42) \<and>
   coerceValue demo_rt ''abc'' (Some ''number'') = JStr ''abc'' \<and>
   coerceValue demo_rt ''null'' (Some ''number'') = JStr ''null'' \<and>
   coerceValue demo_rt ''true'' (Some ''boolean'') = JBool True \<and>
   coerceValue demo_rt ''false'' (Some ''boolean'') = JBool False \<and>
   coerceValue demo_rt ''null'' (Some ''boolean'') = JNull \<and>
   coerceValue demo_rt ''true'' (Some ''string'') = JStr ''true'' \<and>
   coerceValue demo_rt ''null'' None = JNull \<and>
   coerceValue demo_rt ''x'' None = JStr ''x''"
  by (simp add: coerceValue_cases demo_rt_def demo_Number_def is_digit_def string_to_nat_def)

subsection \<open>jsonPathToString\<close>

text \<open>
  C5. A missing or empty path gives \<^verbatim>\<open>$\<close>. A non-empty path gives \<^verbatim>\<open>$[\<close>, the
  segments joined by \<^verbatim>\<open>][\<close>, and \<^verbatim>\<open>]\<close>, where a numeric segment is its bare decimal
  numeral and a string segment is the string between double quotes.
\<close>

theorem jsonPathToString_format:
  "jsonPathToString None = ''$'' \<and> jsonPathToString (Some []) = ''$'' \<and>
   (segs \<noteq> [] \<longrightarrow>
      jsonPathToString (Some segs) = ''$['' @ join '']['' (map path_segment segs) @ '']'') \<and>
   path_segment (Idx i) = nat_to_string i \<and>
   path_segment (Key k) = [dquote] @ k @ [dquote]"
  by (simp add: jsonPathToString_def path_segment_def)

theorem jsonPathToString_format_witness:
  \<open>[Key ''customer'', Idx 12] \<noteq> [] \<and>
   jsonPathToString (Some [Key ''customer'', Idx 12]) = ''$["customer"][12]''\<close>
  using jsonPathToString_format [of "[Key ''customer'', Idx 12]" 12 "''customer''"]
  by (simp add: nat_to_string.simps digit_char_def dquote_def)

subsection \<open>setValueAtPath\<close>

lemma walk_total: "\<exists>r. walk rt cur segs = Inr r"
  by (induction segs arbitrary: cur)
     (auto simp: read_property_def nullish_def split: option.splits json.splits)

lemma index_value_nullish: "nullish cur \<Longrightarrow> index_value rt cur s = None"
  by (auto simp: nullish_def index_value_def)

lemma value_at_None: "value_at rt None segs = None"
  by (induction segs) (simp_all add: value_at_def index_value_def)


lemma walk_value_at: "walk rt cur segs = Inr (value_at rt cur segs)"
proof (induction segs arbitrary: cur)
  case Nil
  then show ?case by (simp add: value_at_def)
next
  case (Cons s segs)
  show ?case
  proof (cases "nullish cur")
    case True
    then have "index_value rt cur s = None" by (rule index_value_nullish)
    then have "value_at rt cur (s # segs) = None"
      using value_at_None [of rt segs] by (simp add: value_at_def)
    with True show ?thesis by simp
  next
    case False
    then have "read_property rt cur s = Inr (index_value rt cur s)"
      by (auto simp: nullish_def read_property_def index_value_def split: option.splits json.splits)
    with False Cons show ?thesis by (simp add: value_at_def)
  qed
qed



subsection \<open>normalizeNodeData on a scalar node\<close>

text \<open>
  C10. On a row list of exactly one row without a key the result is the string
  interpolation of that row's value, not JSON text: a string is shown without quotes,
  \<^verbatim>\<open>null\<close> as \<^verbatim>\<open>null\<close> and \<^verbatim>\<open>undefined\<close> as \<^verbatim>\<open>undefined\<close>.
\<close>

theorem normalizeNodeData_scalar:
  "\<not> truthy_key (row_key r) \<Longrightarrow>
   normalizeNodeData rt (Some [r]) =
     (case row_value r of
        None \<Rightarrow> ''undefined''
      | Some JNull \<Rightarrow> ''null''
      | Some (JStr s) \<Rightarrow> s
      | Some v \<Rightarrow> to_string rt v)"
  by (simp add: normalizeNodeData_def template_def split: option.splits json.splits)

theorem normalizeNodeData_scalar_witness:
  "\<not> truthy_key None \<and>
   normalizeNodeData demo_rt
     (Some [\<lparr>row_key = None, row_value = Some (JStr ''hello''), row_type = ''string''\<rparr>]) = ''hello''"
  using normalizeNodeData_scalar
    [of "\<lparr>row_key = None, row_value = Some (JStr ''hello''), row_type = ''string''\<rparr>" demo_rt]
  by (simp add: truthy_key_def)

subsection \<open>normalizeNodeData on keyed rows\<close>

lemma own_property_order_plain:
  "\<forall>p \<in> set ps. array_index (fst p) = None \<Longrightarrow> own_property_order ps = ps"
proof -
  assume a: "\<forall>p \<in> set ps. array_index (fst p) = None"
  then have "filter (\<lambda>p. array_index (fst p) \<noteq> None) ps = []"
    by (simp add: filter_empty_conv)
  moreover from a have "filter (\<lambda>p. array_index (fst p) = None) ps = ps"
    by (simp add: filter_id_conv)
  ultimately show ?thesis by (simp add: own_property_order_def)
qed

lemma stringify_object_plain:
  assumes "\<forall>p \<in> set es. array_index (fst p) = None"
  shows "JSON_stringify2 rt (JObj es) = print_entries rt es"
proof -
  let ?f = "\<lambda>(k, v). (k, json_quote k @ '': '' @ stringify rt ''  '' v)"
  have "\<forall>p \<in> set (map ?f es). array_index (fst p) = None"
    using assms by auto
  then have "own_property_order (map ?f es) = map ?f es"
    by (rule own_property_order_plain)
  moreover have "map snd (map ?f es) = map (\<lambda>(k, v). json_quote k @ '': '' @ stringify rt ''  '' v) es"
    by (induction es) auto
  ultimately show ?thesis
    by (simp add: JSON_stringify2_def print_entries_def del: map_map)
qed

lemma update_fresh: "k \<notin> fst ` set ps \<Longrightarrow> AList.update k v ps = ps @ [(k, v)]"
  by (induction ps) auto

lemma defined_props_keys: "fst ` set (defined_props ps) \<subseteq> fst ` set ps"
  by (auto simp: defined_props_def split: option.splits) force

lemma scalar_fields_demo_rows: "scalar_fields demo_rows = [(''name'', Some (JStr ''Ann'')), (''age'', Some (JNum (Some 7)))]"
  by (simp add: demo_rows_def scalar_fields_def scalar_row_def truthy_key_def)

lemma array_index_demo_rows: "array_index ''name'' = None" "array_index ''age'' = None"
  by (simp_all add: array_index_def is_digit_def)

lemma array_index_b: "array_index ''b'' = None"
  by (simp add: array_index_def is_digit_def)

lemma array_index_1: "array_index ''1'' = Some 1"
  by (simp add: array_index_def is_digit_def string_to_nat_def nat_to_string.simps digit_char_def)

lemma quote_b: \<open>json_quote ''b'' = ''"b"''\<close>
  by (simp add: json_quote_def json_escape_def short_escape_def dquote_def backslash_def)

lemma quote_1: \<open>json_quote ''1'' = ''"1"''\<close>
  by (simp add: json_quote_def json_escape_def short_escape_def dquote_def backslash_def)

lemma quote_x: \<open>json_quote ''x'' = ''"x"''\<close>
  by (simp add: json_quote_def json_escape_def short_escape_def dquote_def backslash_def)

lemma quote_y: \<open>json_quote ''y'' = ''"y"''\<close>
  by (simp add: json_quote_def json_escape_def short_escape_def dquote_def backslash_def)

lemma normalize_rows_updates:
  assumes "\<forall>k \<in> fst ` set (scalar_fields rows). k \<noteq> ''__proto__''"
  shows "own (foldl normalize_row obj rows)
         = foldl (\<lambda>ps kv. AList.update (fst kv) (snd kv) ps) (own obj) (scalar_fields rows)"
  using assms
proof (induction rows arbitrary: obj)
  case Nil
  then show ?case by (simp add: scalar_fields_def)
next
  case (Cons r rows)
  show ?case
  proof (cases "scalar_row r")
    case False
    then have "normalize_row obj r = obj"
      by (auto simp: normalize_row_def scalar_row_def)
    moreover from False have "scalar_fields (r # rows) = scalar_fields rows"
      by (simp add: scalar_fields_def)
    ultimately show ?thesis using Cons by simp
  next
    case True
    let ?k = "the (row_key r)"
    from True have sf: "scalar_fields (r # rows) = (?k, row_value r) # scalar_fields rows"
      by (simp add: scalar_fields_def)
    with Cons.prems have np: "?k \<noteq> ''__proto__''" by simp
    from True np have step: "own (normalize_row obj r) = AList.update ?k (row_value r) (own obj)"
      by (simp add: normalize_row_def scalar_row_def obj_assign_def)
    have "\<forall>k \<in> fst ` set (scalar_fields rows). k \<noteq> ''__proto__''"
      using Cons.prems sf by auto
    from Cons.IH [OF this, of "normalize_row obj r"] step sf show ?thesis by simp
  qed
qed

lemma assign_fields_distinct:
  "distinct (map fst kvs) \<Longrightarrow> assign_fields kvs = kvs"
proof -
  have "distinct (map fst ps @ map fst kvs) \<Longrightarrow>
        foldl (\<lambda>ps kv. AList.update (fst kv) (snd kv) ps) ps kvs = ps @ kvs" for ps :: "(string \<times> 'a) list"
  proof (induction kvs arbitrary: ps)
    case Nil
    then show ?case by simp
  next
    case (Cons kv kvs)
    then have "fst kv \<notin> fst ` set ps" by auto
    then have "AList.update (fst kv) (snd kv) ps = ps @ [kv]"
      using update_fresh [of "fst kv" ps "snd kv"] by simp
    moreover have "distinct (map fst (ps @ [kv]) @ map fst kvs)"
      using Cons.prems by auto
    ultimately show ?case using Cons.IH [of "ps @ [kv]"] by simp
  qed
  from this [of "[]"] show "distinct (map fst kvs) \<Longrightarrow> assign_fields kvs = kvs"
    by (simp add: assign_fields_def)
qed

lemma map_of_assign_fields: "map_of (assign_fields kvs) = map_of (rev kvs)"
proof -
  have "map_of (foldl (\<lambda>ps kv. AList.update (fst kv) (snd kv) ps) ps kvs)
        = map_of ps ++ map_of (rev kvs)" for ps :: "(string \<times> 'a) list"
  proof (induction kvs arbitrary: ps)
    case Nil
    then show ?case by simp
  next
    case (Cons kv kvs)
    have "map_of (AList.update (fst kv) (snd kv) ps) ++ map_of (rev kvs)
          = map_of ps ++ ([fst kv \<mapsto> snd kv] ++ map_of (rev kvs))"
      by (rule ext) (auto simp: update_conv' map_add_def split: option.splits)
    then show ?case using Cons.IH [of "AList.update (fst kv) (snd kv) ps"]
      by (simp add: map_of_append)
  qed
  from this [of "[]"] show ?thesis by (simp add: assign_fields_def)
qed

text \<open>
  C4, as amended. A missing or empty row list gives \<^verbatim>\<open>{}\<close>. Take a row list with at
  least one keyed row, none of whose scalar fields (the rows with a truthy key whose
  type is neither \<^verbatim>\<open>array\<close> nor \<^verbatim>\<open>object\<close>) has the key \<^verbatim>\<open>__proto__\<close>. The result is
  the 2-space \<^verbatim>\<open>JSON.stringify\<close> text of the object made by assigning each scalar
  field's value to its key, in row order; rows of type \<^verbatim>\<open>array\<close> or \<^verbatim>\<open>object\<close> are
  removed. When moreover the keys of the scalar fields are distinct and none is an
  array index, that text has exactly those rows as its entries, key to value, in row
  order (an entry whose value is \<^verbatim>\<open>undefined\<close> is left out by \<^verbatim>\<open>JSON.stringify\<close>).
\<close>

theorem normalizeNodeData_fields:
  "normalizeNodeData rt None = ''{}'' \<and>
   normalizeNodeData rt (Some []) = ''{}'' \<and>
   ((\<exists>r \<in> set rows. truthy_key (row_key r)) \<and>
    (\<forall>k \<in> fst ` set (scalar_fields rows). k \<noteq> ''__proto__'')
    \<longrightarrow> normalizeNodeData rt (Some rows)
          = JSON_stringify2 rt (JObj (defined_props (assign_fields (scalar_fields rows))))) \<and>
   ((\<exists>r \<in> set rows. truthy_key (row_key r)) \<and>
    (\<forall>k \<in> fst ` set (scalar_fields rows). k \<noteq> ''__proto__'') \<and>
    distinct (map fst (scalar_fields rows)) \<and>
    (\<forall>k \<in> fst ` set (scalar_fields rows). array_index k = None)
    \<longrightarrow> normalizeNodeData rt (Some rows) = print_entries rt (defined_props (scalar_fields rows)))"
proof -
  have general: "normalizeNodeData rt (Some rows)
          = JSON_stringify2 rt (JObj (defined_props (assign_fields (scalar_fields rows))))"
    if keyed: "\<exists>r \<in> set rows. truthy_key (row_key r)"
      and np: "\<forall>k \<in> fst ` set (scalar_fields rows). k \<noteq> ''__proto__''"
  proof -
    from keyed have ne: "rows \<noteq> []" by auto
    have not_single: "\<not> (length rows = 1 \<and> \<not> truthy_key (row_key (rows ! 0)))"
    proof
      assume "length rows = 1 \<and> \<not> truthy_key (row_key (rows ! 0))"
      then obtain r where "rows = [r]" "\<not> truthy_key (row_key r)"
        by (cases rows) auto
      with keyed show False by simp
    qed
    have "own (foldl normalize_row \<lparr>own = [], proto_null = False\<rparr> rows)
          = assign_fields (scalar_fields rows)"
      using normalize_rows_updates [OF np, of "\<lparr>own = [], proto_null = False\<rparr>"]
      by (simp add: assign_fields_def)
    then show ?thesis
      using ne not_single by (auto simp: normalizeNodeData_def)
  qed
  have plain: "normalizeNodeData rt (Some rows)
          = print_entries rt (defined_props (scalar_fields rows))"
    if keyed: "\<exists>r \<in> set rows. truthy_key (row_key r)"
      and np: "\<forall>k \<in> fst ` set (scalar_fields rows). k \<noteq> ''__proto__''"
      and d: "distinct (map fst (scalar_fields rows))"
      and ni: "\<forall>k \<in> fst ` set (scalar_fields rows). array_index k = None"
  proof -
    have "\<forall>p \<in> set (defined_props (scalar_fields rows)). array_index (fst p) = None"
    proof
      fix p assume "p \<in> set (defined_props (scalar_fields rows))"
      then have "fst p \<in> fst ` set (scalar_fields rows)"
        using defined_props_keys [of "scalar_fields rows"] by blast
      with ni show "array_index (fst p) = None" by blast
    qed
    then show ?thesis
      using general [OF keyed np] assign_fields_distinct [OF d]
      by (simp add: stringify_object_plain)
  qed
  show ?thesis using general plain by (simp add: normalizeNodeData_def)
qed

theorem normalizeNodeData_fields_witness:
  "(\<exists>r \<in> set demo_rows. truthy_key (row_key r)) \<and>
   normalizeNodeData demo_rt (Some demo_rows)
     = print_entries demo_rt [(''name'', JStr ''Ann''), (''age'', JNum (Some 7))]"
proof -
  have k: "\<exists>r \<in> set demo_rows. truthy_key (row_key r)"
    by (simp add: demo_rows_def truthy_key_def)
  have d: "distinct (map fst (scalar_fields demo_rows))"
    by (simp add: scalar_fields_demo_rows)
  have p: "\<forall>k \<in> fst ` set (scalar_fields demo_rows). k \<noteq> ''__proto__''"
    by (simp add: scalar_fields_demo_rows)
  have i: "\<forall>k \<in> fst ` set (scalar_fields demo_rows). array_index k = None"
    by (simp add: scalar_fields_demo_rows array_index_demo_rows)
  from normalizeNodeData_fields [of demo_rt demo_rows] k d p i
  have "normalizeNodeData demo_rt (Some demo_rows)
          = print_entries demo_rt (defined_props (scalar_fields demo_rows))"
    by blast
  moreover have "defined_props (scalar_fields demo_rows)
          = [(''name'', JStr ''Ann''), (''age'', JNum (Some 7))]"
    by (simp add: scalar_fields_demo_rows defined_props_def)
  ultimately show ?thesis using k by simp
qed

text \<open>
  C4 as stated fails on keys that are array indices: the rows \<^verbatim>\<open>b\<close>, \<^verbatim>\<open>1\<close> are printed
  with \<^verbatim>\<open>1\<close> first, not in row order.
\<close>

theorem normalizeNodeData_order_counterexample:
  \<open>scalar_fields demo_rows_indexed = [(''b'', Some (JStr ''x'')), (''1'', Some (JStr ''y''))] \<and>
   normalizeNodeData demo_rt (Some demo_rows_indexed)
     = ''{'' @ [newline] @ ''  "1": "y",'' @ [newline] @ ''  "b": "x"'' @ [newline] @ ''}'' \<and>
   normalizeNodeData demo_rt (Some demo_rows_indexed)
     \<noteq> print_entries demo_rt (defined_props (scalar_fields demo_rows_indexed))\<close>
proof -
  have sf: "scalar_fields demo_rows_indexed = [(''b'', Some (JStr ''x'')), (''1'', Some (JStr ''y''))]"
    by (simp add: demo_rows_indexed_def scalar_fields_def scalar_row_def truthy_key_def)
  have own: "own (foldl normalize_row \<lparr>own = [], proto_null = False\<rparr> demo_rows_indexed)
      = [(''b'', Some (JStr ''x'')), (''1'', Some (JStr ''y''))]"
    by (simp add: demo_rows_indexed_def normalize_row_def obj_assign_def truthy_key_def)
  have dp: "defined_props [(''b'', Some (JStr ''x'')), (''1'', Some (JStr ''y''))]
      = [(''b'', JStr ''x''), (''1'', JStr (''y'') :: int option json)]"
    by (simp add: defined_props_def)
  have ord: "own_property_order [(''b'', u), (''1'', v)] = [(''1'', v), (''b'', u)]" for u v :: string
    by (simp add: own_property_order_def array_index_b array_index_1)
  have len: "length demo_rows_indexed = 2"
    by (simp add: demo_rows_indexed_def)
  have code: \<open>normalizeNodeData demo_rt (Some demo_rows_indexed)
     = ''{'' @ [newline] @ ''  "1": "y",'' @ [newline] @ ''  "b": "x"'' @ [newline] @ ''}''\<close>
    by (simp add: normalizeNodeData_def len own dp JSON_stringify2_def ord
          quote_b quote_1 quote_x quote_y)
  have claim: \<open>print_entries demo_rt (defined_props (scalar_fields demo_rows_indexed))
     = ''{'' @ [newline] @ ''  "b": "x",'' @ [newline] @ ''  "1": "y"'' @ [newline] @ ''}''\<close>
    by (simp add: sf dp print_entries_def quote_b quote_1 quote_x quote_y)
  show ?thesis unfolding code claim using sf by (simp add: newline_def)
qed

subsection \<open>handleSave: the steps of a save\<close>

lemma setValueAtPath_eq:
  "setValueAtPath rt root path = Inr (value_at rt root (path_segments path))"
proof (cases path)
  case None
  then show ?thesis by (simp add: setValueAtPath_def path_segments_def value_at_def)
next
  case (Some segs)
  then show ?thesis
    by (cases segs) (simp_all add: setValueAtPath_def path_segments_def walk_value_at value_at_def)
qed

lemma warn_condition: "(nullish v \<or> js_typeof v \<noteq> ''object'') = (\<not> is_object v)"
  by (auto simp: nullish_def js_typeof_def is_object_def split: option.splits json.splits)

lemma handleSave_parsed:
  assumes "parse_document rt (json st) = Some parsed"
  shows "handleSave rt st =
     (let path = nodeData_path (selectedNode st);
          parent = value_at rt (Some parsed) (path_segments path);
          st1 = (if is_object parent then st
                 else emit (ConsoleWarn ''Could not find parent for path, applying to root'') st)
      in case apply_edits rt parsed path parent (new_values rt (selectedNode st) (formValues st)) of
           Inl e \<Rightarrow> save_failed e st1
         | Inr parsed' \<Rightarrow>
             setEditMode False
               (reselect rt path (JSON_stringify2 rt parsed')
                  (setContents (JSON_stringify2 rt parsed') False True
                     (setJson (JSON_stringify2 rt parsed') st1))))"
  using assms
  by (simp add: handleSave_def setValueAtPath_eq warn_condition Let_def split: sum.splits)

lemma scalar_reaches_no_object:
  "\<not> is_object cur \<Longrightarrow> \<not> is_object (value_at rt cur segs)"
proof (induction segs arbitrary: cur)
  case Nil
  then show ?case by (simp add: value_at_def)
next
  case (Cons s segs)
  have "\<not> is_object (index_value rt cur s)"
    using Cons.prems
    by (auto simp: is_object_def index_value_def own_property_def
          split: option.splits json.splits if_splits)
  from Cons.IH [OF this] show ?case by (simp add: value_at_def)
qed

lemma update_at_reaches:
  assumes "value_at rt (Some v) segs = Some t" "is_object (Some t)"
  shows "(\<forall>e. f t = Inl e \<longrightarrow> update_at v segs f = Inl e) \<and>
         (\<forall>t'. f t = Inr t' \<longrightarrow>
            (\<exists>v'. update_at v segs f = Inr v' \<and> value_at rt (Some v') segs = Some t'
                  \<and> (segs \<noteq> [] \<longrightarrow> is_object (Some v'))))"
  using assms
proof (induction segs arbitrary: v)
  case Nil
  then show ?case by (simp add: value_at_def)
next
  case (Cons s segs)
  from Cons.prems have va: "value_at rt (index_value rt (Some v) s) segs = Some t"
    by (simp add: value_at_def)
  with Cons.prems(2) scalar_reaches_no_object [of "index_value rt (Some v) s" rt segs]
  have obj: "is_object (index_value rt (Some v) s)" by auto
  then obtain c where c: "index_value rt (Some v) s = Some c"
    by (cases "index_value rt (Some v) s") (auto simp: is_object_def)
  from Cons.IH [of c] va c Cons.prems(2)
  have IH: "(\<forall>e. f t = Inl e \<longrightarrow> update_at c segs f = Inl e) \<and>
         (\<forall>t'. f t = Inr t' \<longrightarrow>
            (\<exists>v'. update_at c segs f = Inr v' \<and> value_at rt (Some v') segs = Some t'
                  \<and> (segs \<noteq> [] \<longrightarrow> is_object (Some v'))))"
    by simp
  show ?case
  proof (cases v)
    case (JObj ps)
    with c have m: "map_of ps (seg_key s) = Some c"
      by (simp add: index_value_def own_property_def)
    show ?thesis
      using IH m JObj
      by (cases "f t")
         (auto simp: value_at_def index_value_def own_property_def is_object_def update_conv')
  next
    case (JArr xs)
    with c obj obtain i where i: "array_index (seg_key s) = Some i" "i < length xs" "xs ! i = c"
      by (auto simp: index_value_def own_property_def is_object_def split: option.splits if_splits)
    show ?thesis
      using IH i JArr
      by (cases "f t")
         (auto simp: value_at_def index_value_def own_property_def is_object_def)
  next
    case JNull with c show ?thesis by (simp add: index_value_def)
  next
    case (JBool b) with c show ?thesis by (simp add: index_value_def own_property_def)
  next
    case (JNum n) with c show ?thesis by (simp add: index_value_def own_property_def)
  next
    case (JStr x) with c obj show ?thesis
      by (auto simp: index_value_def own_property_def is_object_def split: option.splits if_splits)
  qed
qed


lemma assign_all_object:
  "assign_all rt kvs (JObj ps) = Inr (JObj (foldl assign_entry ps kvs))"
  by (induction kvs arbitrary: ps) (auto simp: set_property_def assign_entry_def)

lemma map_of_assign_entry:
  "map_of (assign_entry ps kv) k =
     (if k = fst kv \<and> \<not> (map_of ps k = None \<and> k = ''__proto__'') then Some (snd kv)
      else map_of ps k)"
  by (auto simp: assign_entry_def update_conv')

lemma foldl_assign_other:
  "k \<notin> fst ` set kvs \<Longrightarrow> map_of (foldl assign_entry ps kvs) k = map_of ps k"
  by (induction kvs arbitrary: ps) (auto simp: map_of_assign_entry)

lemma foldl_assign_proto:
  "map_of ps ''__proto__'' = None \<Longrightarrow> map_of (foldl assign_entry ps kvs) ''__proto__'' = None"
  by (induction kvs arbitrary: ps) (auto simp: map_of_assign_entry)

lemma foldl_assign_keeps:
  "map_of ps k = Some (g k) \<Longrightarrow>
   map_of (foldl assign_entry ps (map (\<lambda>k. (k, g k)) keys)) k = Some (g k)"
  by (induction keys arbitrary: ps) (auto simp: map_of_assign_entry)

lemma foldl_assign_key:
  "k \<in> set keys \<Longrightarrow> k \<noteq> ''__proto__'' \<or> map_of ps k \<noteq> None \<Longrightarrow>
   map_of (foldl assign_entry ps (map (\<lambda>k. (k, g k)) keys)) k = Some (g k)"
proof (induction keys arbitrary: ps)
  case Nil
  then show ?case by simp
next
  case (Cons a keys)
  show ?case
  proof (cases "a = k")
    case True
    with Cons.prems(2) have "map_of (assign_entry ps (a, g a)) k = Some (g k)"
      by (auto simp: map_of_assign_entry)
    then show ?thesis using foldl_assign_keeps [of "assign_entry ps (a, g a)" k g keys] by simp
  next
    case False
    with Cons.prems have "k \<in> set keys" by simp
    moreover have "k \<noteq> ''__proto__'' \<or> map_of (assign_entry ps (a, g a)) k \<noteq> None"
      using Cons.prems(2) by (auto simp: map_of_assign_entry)
    ultimately show ?thesis using Cons.IH by simp
  qed
qed

lemma own_property_order_set: "set (own_property_order ps) = set ps"
  by (auto simp: own_property_order_def)

lemma Object_keys_set: "set (Object_keys ps) = fst ` set ps"
  by (simp add: Object_keys_def own_property_order_set)

subsection \<open>The small runtime on the examples\<close>

lemma demo_parse_nested:
  \<open>parse_document demo_rt (json (demo_state ''{"x":{"a":1},"y":true}'' [Key ''x'']))
     = Some (JObj [(''x'', JObj [(''a'', JNum (Some 1))]), (''y'', JBool True)])\<close>
  by (simp add: parse_document_def demo_state_def demo_rt_def demo_JSON_parse_def)

lemma demo_target_nested:
  "value_at demo_rt (Some (JObj [(''x'', JObj [(''a'', JNum (Some 1))]), (''y'', JBool True)]))
     (path_segments (nodeData_path (selectedNode (demo_state doc [Key ''x'']))))
   = Some (JObj [(''a'', JNum (Some 1))])"
  by (simp add: demo_state_def demo_node_def nodeData_path_def path_segments_def value_at_def
        index_value_def own_property_def seg_key_def)

lemma demo_new_values:
  "new_values demo_rt (selectedNode (demo_state doc p)) (formValues (demo_state doc p))
     = [(''a'', JNum (Some 2))]"
  by (simp add: new_values_def Object_keys_def own_property_order_def array_index_def is_digit_def
        demo_state_def demo_node_def find_row_def row_type_of_def coerceValue_def
        coerce_number_def demo_rt_def demo_Number_def string_to_nat_def)

lemma demo_path: "nodeData_path (selectedNode (demo_state doc p)) = Some p"
  by (simp add: demo_state_def demo_node_def nodeData_path_def)

subsection \<open>handleSave: a save on an object of the document\<close>

text \<open>
  C1, as amended. For every save in which the document text parses as JSON (an empty
  text is taken as \<^verbatim>\<open>{}\<close>) and the value at the selected node's path is an object: the
  edited field values are written into that object (every key of the form other than
  \<^verbatim>\<open>__proto__\<close> gets its coerced value, the other properties are kept), the new document
  is written to the JSON store and the file store as its 2-space JSON text, the parser
  is run on that text, and if it returns a graph with a node whose path equals the
  edited node's path, the first such node becomes the selected node; if it throws or
  there is no such node the selection is unchanged. Edit mode is left.
\<close>

theorem handleSave_writes_back:
  assumes parse: "parse_document rt (json st) = Some parsed"
    and target: "value_at rt (Some parsed) (path_segments (nodeData_path (selectedNode st)))
                   = Some (JObj ps)"
  shows "\<exists>parsed' ps'.
           apply_edits rt parsed (nodeData_path (selectedNode st)) (Some (JObj ps))
             (new_values rt (selectedNode st) (formValues st)) = Inr parsed' \<and>
           value_at rt (Some parsed') (path_segments (nodeData_path (selectedNode st)))
             = Some (JObj ps') \<and>
           (\<forall>k \<in> fst ` set (formValues st). k \<noteq> ''__proto__'' \<longrightarrow>
              map_of ps' k = Some (coerceValue rt (the (map_of (formValues st) k))
                                     (row_type_of (find_row (selectedNode st) k)))) \<and>
           (\<forall>k. k \<notin> fst ` set (formValues st) \<longrightarrow> map_of ps' k = map_of ps k) \<and>
           json (handleSave rt st) = JSON_stringify2 rt parsed' \<and>
           contents (handleSave rt st) = JSON_stringify2 rt parsed' \<and>
           selectedNode (handleSave rt st) =
             (case parser rt (JSON_stringify2 rt parsed') of
                None \<Rightarrow> selectedNode st
              | Some graph \<Rightarrow>
                  (case find (\<lambda>n. node_path n = nodeData_path (selectedNode st)) (nodes graph) of
                     None \<Rightarrow> selectedNode st
                   | Some matched \<Rightarrow> Some matched)) \<and>
           editMode (handleSave rt st) = False"
proof -
  let ?path = "nodeData_path (selectedNode st)"
  let ?kvs = "new_values rt (selectedNode st) (formValues st)"
  let ?g = "\<lambda>k. coerceValue rt (the (map_of (formValues st) k))
                  (row_type_of (find_row (selectedNode st) k))"
  let ?ps' = "foldl assign_entry ps ?kvs"
  have kvs: "?kvs = map (\<lambda>k. (k, ?g k)) (Object_keys (formValues st))"
    by (simp add: new_values_def)
  have obj: "is_object (Some (JObj ps))" by (simp add: is_object_def)
  have "assign_all rt ?kvs (JObj ps) = Inr (JObj ?ps')" by (rule assign_all_object)
  with update_at_reaches [OF target obj, of "assign_all rt ?kvs"]
  obtain parsed' where upd: "update_at parsed (path_segments ?path) (assign_all rt ?kvs) = Inr parsed'"
    and reach: "value_at rt (Some parsed') (path_segments ?path) = Some (JObj ?ps')"
    by auto
  have edits: "apply_edits rt parsed ?path (Some (JObj ps)) ?kvs = Inr parsed'"
    using upd by (simp add: apply_edits_def is_object_def path_segments_def)
  have written: "map_of ?ps' k = Some (?g k)"
    if "k \<in> fst ` set (formValues st)" "k \<noteq> ''__proto__''" for k
    unfolding kvs using that foldl_assign_key [of k "Object_keys (formValues st)" ps ?g]
    by (simp add: Object_keys_set)
  have other: "map_of ?ps' k = map_of ps k" if "k \<notin> fst ` set (formValues st)" for k
    using that foldl_assign_other [of k ?kvs ps]
    by (simp add: kvs Object_keys_set image_image)
  have save: "handleSave rt st =
      setEditMode False
        (reselect rt ?path (JSON_stringify2 rt parsed')
           (setContents (JSON_stringify2 rt parsed') False True
              (setJson (JSON_stringify2 rt parsed') st)))"
    using handleSave_parsed [OF parse] target edits by (simp add: Let_def is_object_def)
  have sel: "selectedNode (handleSave rt st) =
             (case parser rt (JSON_stringify2 rt parsed') of
                None \<Rightarrow> selectedNode st
              | Some graph \<Rightarrow>
                  (case find (\<lambda>n. node_path n = ?path) (nodes graph) of
                     None \<Rightarrow> selectedNode st
                   | Some matched \<Rightarrow> Some matched))"
    unfolding save
    by (simp add: setEditMode_def reselect_def setContents_def setJson_def setSelectedNode_def
          emit_def JSON_stringify_path_inj split: option.splits)
  have flds: "json (handleSave rt st) = JSON_stringify2 rt parsed'"
      "contents (handleSave rt st) = JSON_stringify2 rt parsed'"
      "editMode (handleSave rt st) = False"
    unfolding save
    by (simp_all add: setEditMode_def reselect_def setContents_def setJson_def setSelectedNode_def
          emit_def split: option.splits)
  show ?thesis
    using edits reach written other sel flds by blast
qed

theorem handleSave_writes_back_witness:
  \<open>parse_document demo_rt (json (demo_state ''{"x":{"a":1},"y":true}'' [Key ''x'']))
     = Some (JObj [(''x'', JObj [(''a'', JNum (Some 1))]), (''y'', JBool True)]) \<and>
   value_at demo_rt (Some (JObj [(''x'', JObj [(''a'', JNum (Some 1))]), (''y'', JBool True)]))
     (path_segments (nodeData_path (selectedNode (demo_state ''{"x":{"a":1},"y":true}'' [Key ''x'']))))
     = Some (JObj [(''a'', JNum (Some 1))]) \<and>
   (\<exists>parsed' ps'. json (handleSave demo_rt (demo_state ''{"x":{"a":1},"y":true}'' [Key ''x'']))
        = JSON_stringify2 demo_rt parsed' \<and>
      value_at demo_rt (Some parsed') [Key ''x''] = Some (JObj ps') \<and>
      map_of ps' ''a'' = Some (JNum (Some 2))) \<and>
   editMode (handleSave demo_rt (demo_state ''{"x":{"a":1},"y":true}'' [Key ''x''])) = False\<close>
proof -
  let ?st = \<open>demo_state ''{"x":{"a":1},"y":true}'' [Key ''x'']\<close>
  from handleSave_writes_back [OF demo_parse_nested demo_target_nested]
  obtain parsed' ps' where
    r: "value_at demo_rt (Some parsed') (path_segments (nodeData_path (selectedNode ?st)))
          = Some (JObj ps')"
    and w: "\<forall>k \<in> fst ` set (formValues ?st). k \<noteq> ''__proto__'' \<longrightarrow>
              map_of ps' k = Some (coerceValue demo_rt (the (map_of (formValues ?st) k))
                                     (row_type_of (find_row (selectedNode ?st) k)))"
    and o: "\<forall>k. k \<notin> fst ` set (formValues ?st) \<longrightarrow>
              map_of ps' k = map_of [(''a'', JNum (Some 1))] k"
    and j: "json (handleSave demo_rt ?st) = JSON_stringify2 demo_rt parsed'"
    and e: "editMode (handleSave demo_rt ?st) = False"
    by blast
  have "coerceValue demo_rt (the (map_of (formValues ?st) ''a''))
          (row_type_of (find_row (selectedNode ?st) ''a'')) = JNum (Some 2)"
    by (simp add: demo_state_def demo_node_def find_row_def row_type_of_def coerceValue_def
          coerce_number_def demo_rt_def demo_Number_def is_digit_def string_to_nat_def)
  with w have "map_of ps' ''a'' = Some (JNum (Some 2))"
    by (simp add: demo_state_def)
  moreover from r have "value_at demo_rt (Some parsed') [Key ''x''] = Some (JObj ps')"
    by (simp add: demo_state_def demo_node_def nodeData_path_def path_segments_def)
  ultimately show ?thesis
    using demo_parse_nested demo_target_nested j e by blast
qed

text \<open>
  C1 as stated fails: the text \<^verbatim>\<open>null\<close> parses as JSON, the assignment of the edited
  key on \<^verbatim>\<open>null\<close> throws a TypeError, and the save ends in the \<^verbatim>\<open>catch\<close>: nothing is
  written back and edit mode is not left.
\<close>

theorem handleSave_null_root_counterexample:
  "parse_document demo_rt (json (demo_state ''null'' [])) = Some JNull \<and>
   handleSave demo_rt (demo_state ''null'' []) =
     (demo_state ''null'' [])
       \<lparr>trace := [ConsoleWarn ''Could not find parent for path, applying to root'',
                  ConsoleError ''Failed to save node edits'' TypeError]\<rparr> \<and>
   json (handleSave demo_rt (demo_state ''null'' [])) = ''null'' \<and>
   editMode (handleSave demo_rt (demo_state ''null'' []))"
proof -
  have p: "parse_document demo_rt (json (demo_state ''null'' [])) = Some JNull"
    by (simp add: parse_document_def demo_state_def demo_rt_def demo_JSON_parse_def)
  have h: "handleSave demo_rt (demo_state ''null'' []) =
     (demo_state ''null'' [])
       \<lparr>trace := [ConsoleWarn ''Could not find parent for path, applying to root'',
                  ConsoleError ''Failed to save node edits'' TypeError]\<rparr>"
    unfolding handleSave_parsed [OF p] demo_new_values demo_path
    by (simp add: path_segments_def value_at_def is_object_def apply_edits_def set_property_def
          save_failed_def emit_def demo_state_def)
  show ?thesis unfolding h using p by (simp add: demo_state_def)
qed

subsection \<open>handleSave: the end of a save\<close>

lemma finish_fields:
  "json (setEditMode False (reselect rt path s (setContents s False True (setJson s st1)))) = s"
  "contents (setEditMode False (reselect rt path s (setContents s False True (setJson s st1)))) = s"
  "hasChanges (setEditMode False (reselect rt path s (setContents s False True (setJson s st1))))
     = False"
  "editMode (setEditMode False (reselect rt path s (setContents s False True (setJson s st1))))
     = False"
  by (simp_all add: setEditMode_def reselect_def setContents_def setJson_def
        setSelectedNode_def emit_def split: option.splits)



lemma handleSave_parse_None:
  "parse_document rt (json st) = None \<Longrightarrow> handleSave rt st = save_failed SyntaxError st"
  by (simp add: handleSave_def)



lemma demo_stringify_a2:
  \<open>JSON_stringify2 demo_rt (JObj [(''a'', JNum (Some 2))])
     = ''{'' @ [newline] @ ''  "a": 2'' @ [newline] @ ''}''\<close>
  by (simp add: JSON_stringify2_def own_property_order_def array_index_def is_digit_def
        json_quote_def json_escape_def short_escape_def dquote_def backslash_def
        demo_rt_def demo_numToString_def nat_to_string.simps digit_char_def)



subsection \<open>handleSave: a text that does not parse\<close>

text \<open>
  C2, as amended. If the document text is not empty and fails to parse as JSON when
  save is invoked, the save fails as a whole: the JSON store, the file store and the
  selected node are unchanged, edit mode is not left, and the only effect is the error
  logged on the console. (An empty text is not parsed: it is taken as \<^verbatim>\<open>{}\<close>.)
\<close>

theorem handleSave_parse_failure:
  assumes "json st \<noteq> []" and "JSON_parse rt (json st) = None"
  shows "handleSave rt st =
           st\<lparr>trace := trace st @ [ConsoleError ''Failed to save node edits'' SyntaxError]\<rparr> \<and>
         json (handleSave rt st) = json st \<and>
         contents (handleSave rt st) = contents st \<and>
         hasChanges (handleSave rt st) = hasChanges st \<and>
         selectedNode (handleSave rt st) = selectedNode st \<and>
         editMode (handleSave rt st) = editMode st \<and>
         new_events st (handleSave rt st) = [ConsoleError ''Failed to save node edits'' SyntaxError]"
proof -
  from assms have "parse_document rt (json st) = None" by (simp add: parse_document_def)
  then show ?thesis
    by (simp add: handleSave_parse_None save_failed_def emit_def new_events_def)
qed

theorem handleSave_parse_failure_witness:
  "json (demo_state ''{oops'' []) \<noteq> [] \<and>
   JSON_parse demo_rt (json (demo_state ''{oops'' [])) = None \<and>
   handleSave demo_rt (demo_state ''{oops'' []) =
     (demo_state ''{oops'' [])\<lparr>trace := [ConsoleError ''Failed to save node edits'' SyntaxError]\<rparr>"
proof -
  have a: "json (demo_state ''{oops'' []) \<noteq> []" by (simp add: demo_state_def)
  have b: "JSON_parse demo_rt (json (demo_state ''{oops'' [])) = None"
    by (simp add: demo_state_def demo_rt_def demo_JSON_parse_def)
  from handleSave_parse_failure [OF a b] a b show ?thesis by (simp add: demo_state_def)
qed

text \<open>
  C2 as stated fails on the empty text, which is not JSON (\<^verbatim>\<open>JSON.parse("")\<close> throws):
  the guard \<^verbatim>\<open>raw ? JSON.parse(raw) : {}\<close> takes it as the empty object and the save
  goes through, writing both stores and leaving edit mode.
\<close>

theorem handleSave_empty_text_counterexample:
  \<open>JSON_parse demo_rt (json (demo_state [] [])) = None \<and>
   json (handleSave demo_rt (demo_state [] []))
     = ''{'' @ [newline] @ ''  "a": 2'' @ [newline] @ ''}'' \<and>
   json (handleSave demo_rt (demo_state [] [])) \<noteq> json (demo_state [] []) \<and>
   contents (handleSave demo_rt (demo_state [] [])) \<noteq> contents (demo_state [] []) \<and>
   editMode (demo_state [] []) \<and> \<not> editMode (handleSave demo_rt (demo_state [] []))\<close>
proof -
  have n: "JSON_parse demo_rt (json (demo_state [] [])) = None"
    by (simp add: demo_state_def demo_rt_def demo_JSON_parse_def)
  have p: "parse_document demo_rt (json (demo_state [] [])) = Some (JObj [])"
    by (simp add: parse_document_def demo_state_def)
  have e: "apply_edits demo_rt (JObj []) (Some []) (Some (JObj [])) [(''a'', JNum (Some 2))]
      = Inr (JObj [(''a'', JNum (Some 2))])"
    by (simp add: apply_edits_def is_object_def set_property_def)
  have h: "handleSave demo_rt (demo_state [] []) =
      setEditMode False
        (reselect demo_rt (Some []) (JSON_stringify2 demo_rt (JObj [(''a'', JNum (Some 2))]))
           (setContents (JSON_stringify2 demo_rt (JObj [(''a'', JNum (Some 2))])) False True
              (setJson (JSON_stringify2 demo_rt (JObj [(''a'', JNum (Some 2))])) (demo_state [] []))))"
    unfolding handleSave_parsed [OF p] demo_new_values demo_path
    by (simp add: path_segments_def value_at_def is_object_def e)
  show ?thesis
    unfolding h finish_fields demo_stringify_a2 using n
    by (simp add: demo_state_def)
qed

subsection \<open>handleSave: the graph cannot be re-derived\<close>



subsection \<open>handleSave: the two stores\<close>



subsection \<open>handleSave: the fallback to the root\<close>




end
